theory Spec2Isabelle
  imports Main
begin

section \<open>Data model\<close>

text \<open>
  The embedding follows \<^verbatim>\<open>src/main.py\<close>. The remote services and the file system are the
  only things outside the program: the two HTTP endpoints and the outcome of opening a
  file are parameters (\<open>env\<close>), the files and the sequence of I/O operations performed
  are the state that the program threads through (\<open>state\<close>). A service answers a
  request the same way every time it is asked. The program runs as a single asyncio task
  (it never makes a task of a coroutine object), so its operations happen one after the
  other, in the order the model performs them.

  Left out: the command line (\<^verbatim>\<open>root\<close>), the headers and the cookie of the session, and
  the progress bar, which only iterates over the list it is given.
\<close>

type_synonym bytes = "nat list"

text \<open>A \<^verbatim>\<open>pathlib.Path\<close> is kept as its parts; \<^verbatim>\<open>path / name\<close> adds one part.\<close>

type_synonym path = "string list"

definition path_join :: "path \<Rightarrow> string \<Rightarrow> path" where
  "path_join p n = p @ [n]"

text \<open>Exceptions that the modelled code can raise or receive from its libraries.\<close>

datatype exn =
    ClientResponseError nat
  | KeyError int
  | IndexError
  | OSError path

text \<open>One object of the \<^verbatim>\<open>data\<close> array of the metadata response.\<close>

record asset_data =
  data_id :: int
  data_name :: string
  data_typeId :: int

text \<open>
  One dictionary of \<^verbatim>\<open>result_metadata\<close>. The key \<^verbatim>\<open>success\<close> is absent until the loop
  at lines 113 to 119 stores it: \<open>None\<close> is the absent key.
\<close>

record asset_record =
  name :: string
  rec_id :: int
  filename :: string
  type_id :: int
  success :: "bool option"

text \<open>
  What a file holds: raw bytes, or the text \<^verbatim>\<open>json.dumps({"assets": records}, indent=2)\<close>,
  kept as the list of records it serialises.
\<close>

datatype file_content = Binary bytes | Json "asset_record list"

datatype event =
    Echo string
  | MetadataRequest "int list"
  | ContentRequest int
  | OpenFile path string
  | WriteFile path file_content
  | CloseFile path

record state =
  files :: "path \<rightharpoonup> file_content"
  trace :: "event list"

record env =
  develop :: "int list \<Rightarrow> exn + asset_data list"
  delivery :: "int \<Rightarrow> exn + bytes"
  open_error :: "path \<Rightarrow> exn option"

definition emit :: "event \<Rightarrow> state \<Rightarrow> state" where
  "emit e s = s\<lparr>trace := trace s @ [e]\<rparr>"

section \<open>The extension table (lines 13 to 20)\<close>

definition asset_type_to_extension :: "int \<rightharpoonup> string" where
  "asset_type_to_extension =
     [1 \<mapsto> ''png'', 3 \<mapsto> ''mp3'', 5 \<mapsto> ''lua'', 7 \<mapsto> ''txt'', 9 \<mapsto> ''rbxl'', 10 \<mapsto> ''rbxm'']"

text \<open>\<^verbatim>\<open>d.get(k, default)\<close>\<close>

definition dict_get :: "('k \<rightharpoonup> 'v) \<Rightarrow> 'k \<Rightarrow> 'v \<Rightarrow> 'v" where
  "dict_get d k dflt = (case d k of None \<Rightarrow> dflt | Some v \<Rightarrow> v)"

section \<open>Decimal rendering of an integer, as in an f-string\<close>

definition digit_char :: "nat \<Rightarrow> char" where
  "digit_char n = ''0123456789'' ! n"

function str_nat :: "nat \<Rightarrow> string" where
  "str_nat n = (if n < 10 then [digit_char n] else str_nat (n div 10) @ [digit_char (n mod 10)])"
  by pat_completeness auto
termination
  by (relation "measure (\<lambda>n. n)") auto

declare str_nat.simps [simp del]

definition str_int :: "int \<Rightarrow> string" where
  "str_int i = (if i < 0 then CHR ''-'' # str_nat (nat (- i)) else str_nat (nat i))"

section \<open>Metadata fetcher (lines 23 to 39)\<close>

definition chunk_size :: nat where
  "chunk_size = 50"

text \<open>\<^verbatim>\<open>range(start, stop, step)\<close> for a positive step.\<close>

function py_range :: "nat \<Rightarrow> nat \<Rightarrow> nat \<Rightarrow> nat list" where
  "py_range start stop step =
     (if start < stop \<and> 0 < step then start # py_range (start + step) stop step else [])"
  by pat_completeness auto
termination
  by (relation "measure (\<lambda>(start, stop, step). stop - start)") auto

declare py_range.simps [simp del]

text \<open>\<^verbatim>\<open>[asset_ids[i:i+chunk_size] for i in range(0, len(asset_ids), chunk_size)]\<close>\<close>

definition id_chunks :: "int list \<Rightarrow> int list list" where
  "id_chunks asset_ids =
     map (\<lambda>i. take chunk_size (drop i asset_ids)) (py_range 0 (length asset_ids) chunk_size)"

text \<open>The inner loop of lines 36 and 37: \<^verbatim>\<open>results[asset_data["id"]] = asset_data\<close>.\<close>

fun store_data :: "(int \<rightharpoonup> asset_data) \<Rightarrow> asset_data list \<Rightarrow> (int \<rightharpoonup> asset_data)" where
  "store_data results [] = results"
| "store_data results (d # ds) = store_data (results(data_id d \<mapsto> d)) ds"

text \<open>
  The loop over the chunks. A failed request, a non-success status or a body that does
  not parse all raise: the response is then \<open>Inl\<close> and the exception leaves the function.
\<close>

fun fetch_chunks ::
  "env \<Rightarrow> int list list \<Rightarrow> (int \<rightharpoonup> asset_data) \<Rightarrow> state \<Rightarrow> (exn + (int \<rightharpoonup> asset_data)) \<times> state"
where
  "fetch_chunks ev [] results s = (Inr results, s)"
| "fetch_chunks ev (id_chunk # rest) results s =
     (let s1 = emit (MetadataRequest id_chunk) s in
      case develop ev id_chunk of
        Inl e \<Rightarrow> (Inl e, s1)
      | Inr data \<Rightarrow> fetch_chunks ev rest (store_data results data) s1)"

definition get_asset_information ::
  "env \<Rightarrow> int list \<Rightarrow> state \<Rightarrow> (exn + (int \<rightharpoonup> asset_data)) \<times> state"
where
  "get_asset_information ev asset_ids s = fetch_chunks ev (id_chunks asset_ids) Map.empty s"

section \<open>Content fetcher and asset writer (lines 42 to 59)\<close>

definition get_asset_contents :: "env \<Rightarrow> int \<Rightarrow> state \<Rightarrow> (exn + bytes) \<times> state" where
  "get_asset_contents ev asset_id s = (delivery ev asset_id, emit (ContentRequest asset_id) s)"

text \<open>
  Calling an \<^verbatim>\<open>async\<close> function runs nothing: it returns a coroutine object, a suspended
  call that runs when it is awaited. The two kinds of coroutine objects the program
  makes are the call of \<^verbatim>\<open>download_asset_to_path\<close> and the call of \<^verbatim>\<open>file.write\<close>.
\<close>

datatype coroutine =
    Download_asset_to_path int path
  | File_write path file_content

text \<open>
  \<^verbatim>\<open>aiofiles.open(p, mode)\<close> with a writing mode, entered: the file is created or
  truncated, unless opening raises.
\<close>

definition open_for_write :: "env \<Rightarrow> path \<Rightarrow> string \<Rightarrow> state \<Rightarrow> (exn + unit) \<times> state" where
  "open_for_write ev p mode s =
     (let s1 = emit (OpenFile p mode) s in
      case open_error ev p of
        Some e \<Rightarrow> (Inl e, s1)
      | None \<Rightarrow> (Inr (), s1\<lparr>files := (files s1)(p \<mapsto> Binary [])\<rparr>))"

text \<open>An awaited \<^verbatim>\<open>file.write(data)\<close> on a file that was just truncated.\<close>

definition await_file_write :: "path \<Rightarrow> file_content \<Rightarrow> state \<Rightarrow> state" where
  "await_file_write p data s = (emit (WriteFile p data) s)\<lparr>files := (files s)(p \<mapsto> data)\<rparr>"

definition close_file :: "path \<Rightarrow> state \<Rightarrow> state" where
  "close_file p s = emit (CloseFile p) s"

text \<open>
  The body of \<^verbatim>\<open>download_asset_to_path\<close>. Line 59 is \<^verbatim>\<open>file.write(content)\<close> with no
  \<^verbatim>\<open>await\<close>: the coroutine object \<open>File_write asset_path (Binary content)\<close> is made and
  dropped, so nothing is written between opening and closing.
\<close>

definition download_asset_to_path :: "env \<Rightarrow> int \<Rightarrow> path \<Rightarrow> state \<Rightarrow> (exn + unit) \<times> state" where
  "download_asset_to_path ev asset_id asset_path s =
     (case get_asset_contents ev asset_id s of
        (Inl e, s1) \<Rightarrow> (Inl e, s1)
      | (Inr content, s1) \<Rightarrow>
          (case open_for_write ev asset_path ''wb'' s1 of
             (Inl e, s2) \<Rightarrow> (Inl e, s2)
           | (Inr u, s2) \<Rightarrow>
               (let dropped = File_write asset_path (Binary content)
                in (Inr (), close_file asset_path s2))))"

text \<open>\<^verbatim>\<open>await c\<close>\<close>

fun await :: "env \<Rightarrow> coroutine \<Rightarrow> state \<Rightarrow> (exn + unit) \<times> state" where
  "await ev (Download_asset_to_path asset_id asset_path) s =
     download_asset_to_path ev asset_id asset_path s"
| "await ev (File_write p data) s = (Inr (), await_file_write p data s)"

section \<open>The orchestrator and the manifest (lines 62 to 126)\<close>

text \<open>
  Lines 80 to 97: the record and the coroutine object of every asset, in input order.
  A missing key at \<^verbatim>\<open>asset_infos[asset_id]\<close> raises \<^verbatim>\<open>KeyError\<close>.
\<close>

fun build_records ::
  "path \<Rightarrow> (int \<rightharpoonup> asset_data) \<Rightarrow> int list \<Rightarrow> asset_record list \<Rightarrow> coroutine list
     \<Rightarrow> exn + (asset_record list \<times> coroutine list)"
where
  "build_records p asset_infos [] result_metadata coroutines = Inr (result_metadata, coroutines)"
| "build_records p asset_infos (asset_id # rest) result_metadata coroutines =
     (case asset_infos asset_id of
        None \<Rightarrow> Inl (KeyError asset_id)
      | Some asset_info \<Rightarrow>
          (let asset_extension = dict_get asset_type_to_extension (data_typeId asset_info) ''bin'';
               asset_filename = str_int asset_id @ ''.'' @ asset_extension;
               asset_path = path_join p asset_filename
           in build_records p asset_infos rest
                (result_metadata @
                   [\<lparr>name = data_name asset_info, rec_id = data_id asset_info,
                     filename = asset_filename, type_id = data_typeId asset_info,
                     success = None\<rparr>])
                (coroutines @ [Download_asset_to_path asset_id asset_path])))"

text \<open>Lines 99 to 109: every coroutine is awaited in turn, an exception is caught.\<close>

fun await_each ::
  "env \<Rightarrow> coroutine list \<Rightarrow> (bool \<times> exn option) list \<Rightarrow> state
     \<Rightarrow> (bool \<times> exn option) list \<times> state"
where
  "await_each ev [] results s = (results, s)"
| "await_each ev (c # cs) results s =
     (case await ev c s of
        (Inr u, s1) \<Rightarrow> await_each ev cs (results @ [(True, None)]) s1
      | (Inl e, s1) \<Rightarrow> await_each ev cs (results @ [(False, Some e)]) s1)"

text \<open>
  Lines 111 to 119, over \<^verbatim>\<open>enumerate(results)\<close>. Assigning through an index past the
  end of \<^verbatim>\<open>result_metadata\<close> raises \<^verbatim>\<open>IndexError\<close>.
\<close>

fun set_success ::
  "(nat \<times> bool \<times> exn option) list \<Rightarrow> asset_record list \<Rightarrow> nat \<Rightarrow> nat
     \<Rightarrow> exn + (asset_record list \<times> nat \<times> nat)"
where
  "set_success [] result_metadata success_count fail_count =
     Inr (result_metadata, success_count, fail_count)"
| "set_success ((i, result) # rest) result_metadata success_count fail_count =
     (let success_count' = (if fst result then success_count + 1 else success_count);
          fail_count' = (if fst result then fail_count else fail_count + 1)
      in if i < length result_metadata
         then set_success rest
                (result_metadata[i := (result_metadata ! i)\<lparr>success := Some (fst result)\<rparr>])
                success_count' fail_count'
         else Inl IndexError)"

definition summary_line :: "nat \<Rightarrow> nat \<Rightarrow> nat \<Rightarrow> string" where
  "summary_line n success_count fail_count =
     str_nat n @ '' assets downloaded. '' @ str_nat success_count @ '' succeeded, '' @
     str_nat fail_count @ '' failed.''"

text \<open>Lines 123 to 126: the manifest, written with an awaited \<^verbatim>\<open>file.write\<close>.\<close>

definition write_manifest :: "env \<Rightarrow> path \<Rightarrow> asset_record list \<Rightarrow> state \<Rightarrow> exn option \<times> state" where
  "write_manifest ev p result_metadata s =
     (case open_for_write ev p ''w'' s of
        (Inl e, s1) \<Rightarrow> (Some e, s1)
      | (Inr u, s1) \<Rightarrow>
          (case await ev (File_write p (Json result_metadata)) s1 of
             (r, s2) \<Rightarrow> (None, close_file p s2)))"

text \<open>
  \<^verbatim>\<open>main\<close>: the exception that left it, if any, and the state it left behind.
\<close>

definition main :: "env \<Rightarrow> path \<Rightarrow> int list \<Rightarrow> state \<Rightarrow> exn option \<times> state" where
  "main ev p asset_ids s =
     (case get_asset_information ev asset_ids (emit (Echo ''Fetching asset information...'') s) of
        (Inl e, s1) \<Rightarrow> (Some e, s1)
      | (Inr asset_infos, s1) \<Rightarrow>
          (case build_records p asset_infos asset_ids [] [] of
             Inl e \<Rightarrow> (Some e, s1)
           | Inr (result_metadata, coroutines) \<Rightarrow>
               (case await_each ev coroutines [] s1 of
                  (results, s2) \<Rightarrow>
                    (case set_success (enumerate 0 results) result_metadata 0 0 of
                       Inl e \<Rightarrow> (Some e, s2)
                     | Inr (result_metadata', success_count, fail_count) \<Rightarrow>
                         write_manifest ev (path_join p ''assets.json'') result_metadata'
                           (emit (Echo (summary_line (length results) success_count fail_count))
                              s2)))))"

section \<open>Notions used to state the properties\<close>

text \<open>
  Nothing below is program text: these are the notions the lemmas and theorems are stated
  with, each defined from the code above.
\<close>

subsection \<open>Reading a decimal rendering back\<close>

definition digit_val :: "char \<Rightarrow> nat" where
  "digit_val c = of_char c - 48"

definition nat_of_digits :: "string \<Rightarrow> nat" where
  "nat_of_digits cs = foldl (\<lambda>a c. 10 * a + digit_val c) 0 cs"

subsection \<open>The merged metadata\<close>

text \<open>The \<^verbatim>\<open>data\<close> array a chunk's query answers with (nothing when the query fails).\<close>

definition response_data :: "env \<Rightarrow> int list \<Rightarrow> asset_data list" where
  "response_data ev c = (case develop ev c of Inl e \<Rightarrow> [] | Inr ds \<Rightarrow> ds)"

text \<open>The last object with a given id in a list of response objects.\<close>

definition last_with_id :: "asset_data list \<Rightarrow> int \<Rightarrow> asset_data option" where
  "last_with_id ds k =
     (case filter (\<lambda>d. data_id d = k) ds of [] \<Rightarrow> None | x # xs \<Rightarrow> Some (last (x # xs)))"

text \<open>What the fetcher returns when every query succeeds.\<close>

definition merged :: "env \<Rightarrow> int list \<Rightarrow> (int \<rightharpoonup> asset_data)" where
  "merged ev ids = store_data Map.empty (concat (map (response_data ev) (id_chunks ids)))"

subsection \<open>One asset\<close>

text \<open>The file name and the record that lines 83 to 91 build for an id and its metadata.\<close>

definition filename_for :: "int \<Rightarrow> asset_data \<Rightarrow> string" where
  "filename_for asset_id asset_info =
     str_int asset_id @ ''.'' @ dict_get asset_type_to_extension (data_typeId asset_info) ''bin''"

definition record_for :: "int \<Rightarrow> asset_data \<Rightarrow> asset_record" where
  "record_for asset_id asset_info =
     \<lparr>name = data_name asset_info, rec_id = data_id asset_info,
      filename = filename_for asset_id asset_info, type_id = data_typeId asset_info,
      success = None\<rparr>"

definition asset_path_of :: "path \<Rightarrow> (int \<rightharpoonup> asset_data) \<Rightarrow> int \<Rightarrow> path" where
  "asset_path_of p infos i = path_join p (filename_for i (the (infos i)))"

definition manifest_path :: "path \<Rightarrow> path" where
  "manifest_path p = path_join p ''assets.json''"

text \<open>
  What awaiting one download gives: its result, whether it completed, and the I/O
  operations it performs.
\<close>

definition download_result :: "env \<Rightarrow> int \<Rightarrow> path \<Rightarrow> exn + unit" where
  "download_result ev asset_id asset_path =
     (case delivery ev asset_id of
        Inl e \<Rightarrow> Inl e
      | Inr content \<Rightarrow> (case open_error ev asset_path of Some e \<Rightarrow> Inl e | None \<Rightarrow> Inr ()))"

definition download_ok :: "env \<Rightarrow> int \<Rightarrow> path \<Rightarrow> bool" where
  "download_ok ev asset_id asset_path =
     (case download_result ev asset_id asset_path of Inl e \<Rightarrow> False | Inr u \<Rightarrow> True)"

definition download_events :: "env \<Rightarrow> int \<Rightarrow> path \<Rightarrow> event list" where
  "download_events ev asset_id asset_path =
     ContentRequest asset_id #
     (case delivery ev asset_id of
        Inl e \<Rightarrow> []
      | Inr content \<Rightarrow>
          OpenFile asset_path ''wb'' #
          (case open_error ev asset_path of Some e \<Rightarrow> [] | None \<Rightarrow> [CloseFile asset_path]))"

text \<open>The pair that lines 107 and 109 append to \<^verbatim>\<open>results\<close>.\<close>

definition outcome :: "exn + unit \<Rightarrow> bool \<times> exn option" where
  "outcome r = (case r of Inl e \<Rightarrow> (False, Some e) | Inr u \<Rightarrow> (True, None))"

text \<open>The assignment of line 119.\<close>

definition set_flag :: "asset_record \<Rightarrow> bool \<times> exn option \<Rightarrow> asset_record" where
  "set_flag r res = r\<lparr>success := Some (fst res)\<rparr>"

subsection \<open>A whole run\<close>

text \<open>The files after all downloads, the records of the manifest and the operations of a run.\<close>

definition written :: "env \<Rightarrow> (int \<Rightarrow> path) \<Rightarrow> int list \<Rightarrow> (path \<rightharpoonup> file_content) \<Rightarrow> (path \<rightharpoonup> file_content)" where
  "written ev pth ids f = fold (\<lambda>i g. if download_ok ev i (pth i) then g(pth i \<mapsto> Binary []) else g) ids f"

definition final_records :: "env \<Rightarrow> path \<Rightarrow> (int \<rightharpoonup> asset_data) \<Rightarrow> int list \<Rightarrow> asset_record list" where
  "final_records ev p infos ids =
     map (\<lambda>i. set_flag (record_for i (the (infos i)))
                (outcome (download_result ev i (asset_path_of p infos i)))) ids"

definition final_trace :: "env \<Rightarrow> path \<Rightarrow> (int \<rightharpoonup> asset_data) \<Rightarrow> int list \<Rightarrow> event list" where
  "final_trace ev p infos ids =
     Echo ''Fetching asset information...'' # map MetadataRequest (id_chunks ids) @
     concat (map (\<lambda>i. download_events ev i (asset_path_of p infos i)) ids) @
     [Echo (summary_line (length ids)
         (length (filter (\<lambda>i. download_ok ev i (asset_path_of p infos i)) ids))
         (length (filter (\<lambda>i. \<not> download_ok ev i (asset_path_of p infos i)) ids))),
      OpenFile (manifest_path p) ''w'',
      WriteFile (manifest_path p) (Json (final_records ev p infos ids)),
      CloseFile (manifest_path p)]"

text \<open>What awaiting a coroutine object does on its own, from its first operation to its last.\<close>

definition run_alone :: "env \<Rightarrow> coroutine \<Rightarrow> event list" where
  "run_alone ev c = trace (snd (await ev c \<lparr>files = Map.empty, trace = []\<rparr>))"

text \<open>
  The extension table as the specification words it: 1 is png, 3 is mp3, 5 is lua, 7 is
  txt, 9 is rbxl, 10 is rbxm, and every other type code is bin.
\<close>

definition spec_extension :: "int \<Rightarrow> string" where
  "spec_extension t =
     (if t = 1 then ''png'' else if t = 3 then ''mp3'' else if t = 5 then ''lua''
      else if t = 7 then ''txt'' else if t = 9 then ''rbxl'' else if t = 10 then ''rbxm''
      else ''bin'')"

text \<open>
  Downloads that are all in flight at the same time have all sent their content request
  before the first of them ends. On a trace: no content request follows the first
  closing of a file.
\<close>

fun is_content_request :: "event \<Rightarrow> bool" where
  "is_content_request (ContentRequest i) = True"
| "is_content_request e = False"

fun is_close :: "event \<Rightarrow> bool" where
  "is_close (CloseFile q) = True"
| "is_close e = False"

definition all_in_flight_together :: "event list \<Rightarrow> bool" where
  "all_in_flight_together tr =
     list_all (\<lambda>e. \<not> is_content_request e) (dropWhile (\<lambda>e. \<not> is_close e) tr)"

subsection \<open>Concrete runs\<close>

text \<open>
  A metadata service that knows every id (asset 1 is an image, every other asset has the
  unmapped type 999), a delivery service that answers 404 for asset 2 and three bytes for
  every other asset, and a file system where every file can be opened.
\<close>

definition demo_data :: "int \<Rightarrow> asset_data" where
  "demo_data i = \<lparr>data_id = i, data_name = ''asset'', data_typeId = (if i = 1 then 1 else 999)\<rparr>"

definition demo_env :: env where
  "demo_env =
     \<lparr>develop = (\<lambda>c. Inr (map demo_data c)),
      delivery = (\<lambda>i. if i = 2 then Inl (ClientResponseError 404) else Inr [7, 8, 9]),
      open_error = (\<lambda>q. None)\<rparr>"

text \<open>The same services, with a metadata service that answers every query with status 500.\<close>

definition failing_env :: env where
  "failing_env = demo_env\<lparr>develop := (\<lambda>c. Inl (ClientResponseError 500))\<rparr>"

text \<open>The same services, with a metadata service that leaves asset 2 out of its answers.\<close>

definition omitting_env :: env where
  "omitting_env = demo_env\<lparr>develop := (\<lambda>c. Inr (map demo_data (filter (\<lambda>i. i \<noteq> 2) c)))\<rparr>"

definition empty_state :: state where
  "empty_state = \<lparr>files = Map.empty, trace = []\<rparr>"

section \<open>Decimal renderings are injective\<close>

lemma digit_cases: "n < 10 \<Longrightarrow> n \<in> {0, 1, 2, 3, 4, 5, 6, 7, 8, 9}" for n :: nat
  by auto

lemma digit_val_digit_char: "n < 10 \<Longrightarrow> digit_val (digit_char n) = n"
  using digit_cases [of n] by (auto simp: digit_val_def digit_char_def)

lemma digit_char_in: "n < 10 \<Longrightarrow> digit_char n \<in> set ''0123456789''"
  using digit_cases [of n] by (auto simp: digit_char_def)

lemma nat_of_digits_str_nat: "nat_of_digits (str_nat n) = n"
proof (induction n rule: str_nat.induct)
  case (1 n)
  show ?case
  proof (cases "n < 10")
    case True
    then show ?thesis
      by (subst str_nat.simps) (simp add: nat_of_digits_def digit_val_digit_char)
  next
    case False
    with 1 have "nat_of_digits (str_nat (n div 10)) = n div 10" by simp
    with False show ?thesis
      by (subst str_nat.simps) (simp add: nat_of_digits_def digit_val_digit_char)
  qed
qed

lemma str_nat_inj: "str_nat m = str_nat n \<Longrightarrow> m = n"
proof -
  assume "str_nat m = str_nat n"
  then have "nat_of_digits (str_nat m) = nat_of_digits (str_nat n)" by (rule arg_cong)
  then show "m = n" by (simp only: nat_of_digits_str_nat)
qed

lemma str_nat_digits: "set (str_nat n) \<subseteq> set ''0123456789''"
proof (induction n rule: str_nat.induct)
  case (1 n)
  show ?case
  proof (cases "n < 10")
    case True
    then show ?thesis
      using digit_char_in [of n] by (subst str_nat.simps) simp
  next
    case False
    with 1 have "set (str_nat (n div 10)) \<subseteq> set ''0123456789''" by simp
    moreover have "digit_char (n mod 10) \<in> set ''0123456789''"
      by (rule digit_char_in) simp
    ultimately show ?thesis using False
      by (subst str_nat.simps) simp
  qed
qed

lemma str_nat_not_Nil: "str_nat n \<noteq> []"
  by (subst str_nat.simps) simp

lemma str_int_chars: "set (str_int i) \<subseteq> set ''-0123456789''"
proof (cases "i < 0")
  case True
  have "set (str_nat (nat (- i))) \<subseteq> set ''0123456789''" by (rule str_nat_digits)
  also have "\<dots> \<subseteq> set ''-0123456789''" by (simp add: subset_insertI2)
  finally show ?thesis using True by (simp add: str_int_def)
next
  case False
  have "set (str_nat (nat i)) \<subseteq> set ''0123456789''" by (rule str_nat_digits)
  also have "\<dots> \<subseteq> set ''-0123456789''" by (simp add: subset_insertI2)
  finally show ?thesis using False by (simp add: str_int_def)
qed

lemma str_int_inj: "str_int i = str_int j \<Longrightarrow> i = j"
proof -
  assume eq: "str_int i = str_int j"
  have minus: "hd (str_nat n) \<noteq> CHR ''-''" for n
  proof -
    have "hd (str_nat n) \<in> set (str_nat n)" by (simp add: str_nat_not_Nil)
    then have "hd (str_nat n) \<in> set ''0123456789''" using str_nat_digits by blast
    then show ?thesis by auto
  qed
  show ?thesis
  proof (cases "i < 0")
    case True
    show ?thesis
    proof (cases "j < 0")
      case j: True
      with True eq have "str_nat (nat (- i)) = str_nat (nat (- j))" by (simp add: str_int_def)
      then have "nat (- i) = nat (- j)" by (rule str_nat_inj)
      with True j show ?thesis by simp
    next
      case j: False
      with True eq have "CHR ''-'' # str_nat (nat (- i)) = str_nat (nat j)" by (simp add: str_int_def)
      then have "hd (str_nat (nat j)) = CHR ''-''" by (metis list.sel(1))
      with minus show ?thesis by blast
    qed
  next
    case False
    show ?thesis
    proof (cases "j < 0")
      case j: True
      with False eq have "str_nat (nat i) = CHR ''-'' # str_nat (nat (- j))" by (simp add: str_int_def)
      then have "hd (str_nat (nat i)) = CHR ''-''" by (metis list.sel(1))
      with minus show ?thesis by blast
    next
      case j: False
      with False eq have "str_nat (nat i) = str_nat (nat j)" by (simp add: str_int_def)
      then have "nat i = nat j" by (rule str_nat_inj)
      with False j show ?thesis by simp
    qed
  qed
qed

lemma stem_filename: "takeWhile (\<lambda>c. c \<noteq> CHR ''.'') (str_int i @ ''.'' @ e) = str_int i"
proof -
  have "\<forall>c\<in>set (str_int i). c \<noteq> CHR ''.''" using str_int_chars [of i] by auto
  then show ?thesis by (simp add: takeWhile_tail)
qed

lemma filename_inj: "str_int i @ ''.'' @ e = str_int j @ ''.'' @ e' \<Longrightarrow> i = j"
proof -
  assume A: "str_int i @ ''.'' @ e = str_int j @ ''.'' @ e'"
  have "str_int i = takeWhile (\<lambda>c. c \<noteq> CHR ''.'') (str_int i @ ''.'' @ e)"
    by (simp only: stem_filename)
  also have "\<dots> = takeWhile (\<lambda>c. c \<noteq> CHR ''.'') (str_int j @ ''.'' @ e')"
    by (simp only: A)
  also have "\<dots> = str_int j" by (simp only: stem_filename)
  finally show "i = j" by (rule str_int_inj)
qed

lemma filename_not_manifest: "str_int i @ ''.'' @ e \<noteq> ''assets.json''"
proof
  assume A: "str_int i @ ''.'' @ e = ''assets.json''"
  have "str_int i = takeWhile (\<lambda>c. c \<noteq> CHR ''.'') (str_int i @ ''.'' @ e)"
    by (simp only: stem_filename)
  also have "\<dots> = takeWhile (\<lambda>c. c \<noteq> CHR ''.'') ''assets.json''"
    by (simp only: A)
  also have "\<dots> = ''assets''" by simp
  finally have "str_int i = ''assets''" .
  then have "CHR ''a'' \<in> set (str_int i)" by simp
  then show False using str_int_chars [of i] by auto
qed

section \<open>Chunks\<close>

lemma concat_chunks_from:
  "0 < k \<Longrightarrow> concat (map (\<lambda>i. take k (drop i xs)) (py_range i (length xs) k)) = drop i xs"
proof (induction i "length xs" k rule: py_range.induct)
  case (1 start step)
  show ?case
  proof (cases "start < length xs")
    case True
    with 1 have "concat (map (\<lambda>i. take step (drop i xs)) (py_range (start + step) (length xs) step)) = drop (start + step) xs"
      by simp
    moreover have "drop (start + step) xs = drop step (drop start xs)"
      by (simp add: add.commute)
    ultimately show ?thesis using True 1(2)
      by (subst py_range.simps) (simp only: if_True simp_thms list.map concat.simps append_take_drop_id)
  next
    case False
    then show ?thesis by (subst py_range.simps) simp
  qed
qed

lemma concat_id_chunks: "concat (id_chunks ids) = ids"
  using concat_chunks_from [of chunk_size ids 0] by (simp add: id_chunks_def chunk_size_def)

lemma py_range_lt: "i \<in> set (py_range start stop step) \<Longrightarrow> i < stop"
proof (induction start stop step rule: py_range.induct)
  case (1 start stop step)
  from 1(2) show ?case
    by (subst (asm) py_range.simps) (use 1(1) in \<open>auto split: if_splits\<close>)
qed

lemma id_chunks_bounds: "c \<in> set (id_chunks ids) \<Longrightarrow> 0 < length c \<and> length c \<le> 50"
  by (auto simp: id_chunks_def chunk_size_def dest: py_range_lt)

lemma py_range_120: "py_range 0 120 50 = [0, 50, 100]"
  by (simp add: py_range.simps)

lemma id_chunks_120: "length ids = 120 \<Longrightarrow> map length (id_chunks ids) = [50, 50, 20]"
  by (simp add: id_chunks_def chunk_size_def py_range_120)

section \<open>The metadata fetcher\<close>

lemma store_data_append: "store_data r (ds @ es) = store_data (store_data r ds) es"
  by (induction ds arbitrary: r) simp_all

lemma store_data_lookup:
  "store_data r ds k = (case last_with_id ds k of None \<Rightarrow> r k | Some d \<Rightarrow> Some d)"
proof (induction ds arbitrary: r)
  case Nil
  show ?case by (simp add: last_with_id_def)
next
  case (Cons d ds)
  show ?case
    by (simp add: Cons.IH) (simp add: last_with_id_def split: list.splits)
qed

lemma last_with_id_id: "last_with_id ds k = Some d \<Longrightarrow> data_id d = k \<and> d \<in> set ds"
proof -
  assume A: "last_with_id ds k = Some d"
  then obtain x xs where F: "filter (\<lambda>d. data_id d = k) ds = x # xs" and D: "d = last (x # xs)"
    by (auto simp: last_with_id_def split: list.splits)
  have "last (x # xs) \<in> set (x # xs)" by (rule last_in_set) simp
  with F D have "d \<in> set (filter (\<lambda>d. data_id d = k) ds)" by simp
  then show ?thesis by simp
qed

lemma last_with_id_None: "last_with_id ds k = None \<longleftrightarrow> k \<notin> data_id ` set ds"
proof -
  have "last_with_id ds k = None \<longleftrightarrow> filter (\<lambda>d. data_id d = k) ds = []"
    by (simp add: last_with_id_def split: list.splits)
  also have "\<dots> \<longleftrightarrow> k \<notin> data_id ` set ds"
    by (auto simp: filter_empty_conv)
  finally show ?thesis .
qed

lemma fetch_chunks_files: "files (snd (fetch_chunks ev cs r s)) = files s"
  by (induction cs arbitrary: r s) (auto simp: emit_def Let_def split: sum.splits)

lemma fetch_chunks_ok:
  "\<forall>c\<in>set cs. \<exists>ds. develop ev c = Inr ds \<Longrightarrow>
   fetch_chunks ev cs r s =
     (Inr (store_data r (concat (map (response_data ev) cs))),
      s\<lparr>trace := trace s @ map MetadataRequest cs\<rparr>)"
proof (induction cs arbitrary: r s)
  case Nil
  show ?case by simp
next
  case (Cons c cs)
  from Cons.prems obtain ds where ds: "develop ev c = Inr ds" by auto
  from Cons.prems have rest: "\<forall>c\<in>set cs. \<exists>ds. develop ev c = Inr ds" by simp
  show ?case
    by (simp add: ds Cons.IH [OF rest] response_data_def store_data_append emit_def)
qed

lemma fetch_chunks_fail:
  "c \<in> set cs \<Longrightarrow> develop ev c = Inl e \<Longrightarrow>
   \<exists>e' c' k. fetch_chunks ev cs r s =
       (Inl e', s\<lparr>trace := trace s @ map MetadataRequest (take k cs)\<rparr>) \<and>
     c' \<in> set cs \<and> develop ev c' = Inl e'"
proof (induction cs arbitrary: r s)
  case Nil
  then show ?case by simp
next
  case (Cons a cs)
  show ?case
  proof (cases "develop ev a")
    case (Inl e1)
    have "fetch_chunks ev (a # cs) r s =
        (Inl e1, s\<lparr>trace := trace s @ map MetadataRequest (take 1 (a # cs))\<rparr>)"
      by (simp add: Inl emit_def)
    with Inl show ?thesis by (metis list.set_intros(1))
  next
    case (Inr ds)
    with Cons.prems have "c \<in> set cs" by auto
    from Cons.IH [OF this Cons.prems(2)]
    obtain e' c' k where
      F: "fetch_chunks ev cs (store_data r ds) (emit (MetadataRequest a) s) =
          (Inl e', (emit (MetadataRequest a) s)\<lparr>trace := trace (emit (MetadataRequest a) s) @ map MetadataRequest (take k cs)\<rparr>)"
      and C: "c' \<in> set cs" "develop ev c' = Inl e'"
      by blast
    have "fetch_chunks ev (a # cs) r s =
        (Inl e', s\<lparr>trace := trace s @ map MetadataRequest (take (Suc k) (a # cs))\<rparr>)"
      by (simp add: Inr F) (simp add: emit_def)
    with C show ?thesis by (metis list.set_intros(2))
  qed
qed

lemma fetch_chunks_Inr_all:
  "fst (fetch_chunks ev cs r s) = Inr infos \<Longrightarrow> c \<in> set cs \<Longrightarrow> \<exists>ds. develop ev c = Inr ds"
proof (cases "develop ev c")
  case (Inl e)
  assume "c \<in> set cs" and R: "fst (fetch_chunks ev cs r s) = Inr infos"
  from fetch_chunks_fail [OF this(1) Inl, of r s] R show ?thesis by auto
next
  case (Inr ds)
  then show ?thesis by simp
qed

lemma get_asset_information_ok:
  assumes "fst (get_asset_information ev ids s0) = Inr infos"
  shows "get_asset_information ev ids s =
           (Inr infos, s\<lparr>trace := trace s @ map MetadataRequest (id_chunks ids)\<rparr>)"
    and "infos = merged ev ids"
    and "\<forall>c\<in>set (id_chunks ids). \<exists>ds. develop ev c = Inr ds"
proof -
  show all: "\<forall>c\<in>set (id_chunks ids). \<exists>ds. develop ev c = Inr ds"
    using assms fetch_chunks_Inr_all unfolding get_asset_information_def by blast
  from fetch_chunks_ok [OF all, of Map.empty s0] assms
  show m: "infos = merged ev ids"
    by (simp add: get_asset_information_def merged_def)
  from fetch_chunks_ok [OF all, of Map.empty s] m
  show "get_asset_information ev ids s =
           (Inr infos, s\<lparr>trace := trace s @ map MetadataRequest (id_chunks ids)\<rparr>)"
    by (simp add: get_asset_information_def merged_def)
qed

lemma get_asset_information_fail:
  assumes "c \<in> set (id_chunks ids)" and "develop ev c = Inl e"
  shows "\<exists>e' c' k. get_asset_information ev ids s =
           (Inl e', s\<lparr>trace := trace s @ map MetadataRequest (take k (id_chunks ids))\<rparr>) \<and>
         c' \<in> set (id_chunks ids) \<and> develop ev c' = Inl e'"
  using fetch_chunks_fail [OF assms] unfolding get_asset_information_def by blast

section \<open>Records, downloads and the result loop\<close>

lemma build_records_ok:
  "set ids \<subseteq> dom infos \<Longrightarrow>
   build_records p infos ids rm cs =
     Inr (rm @ map (\<lambda>i. record_for i (the (infos i))) ids,
          cs @ map (\<lambda>i. Download_asset_to_path i (path_join p (filename_for i (the (infos i))))) ids)"
proof (induction ids arbitrary: rm cs)
  case Nil
  show ?case by simp
next
  case (Cons i ids)
  from Cons.prems obtain d where d: "infos i = Some d" by auto
  from Cons.prems have rest: "set ids \<subseteq> dom infos" by simp
  show ?case
    by (simp add: d Cons.IH [OF rest] Let_def record_for_def filename_for_def)
qed

lemma build_records_missing:
  "x \<in> set ids \<Longrightarrow> infos x = None \<Longrightarrow>
   \<exists>k. build_records p infos ids rm cs = Inl (KeyError k) \<and>
       find (\<lambda>i. infos i = None) ids = Some k"
proof (induction ids arbitrary: rm cs)
  case Nil
  then show ?case by simp
next
  case (Cons i ids)
  show ?case
  proof (cases "infos i")
    case None
    then show ?thesis by simp
  next
    case (Some d)
    with Cons.prems have "x \<in> set ids" by auto
    from Cons.IH [OF this Cons.prems(2)] Some show ?thesis
      by (simp add: Let_def)
  qed
qed

lemma download_asset_to_path_eq:
  "download_asset_to_path ev i p s =
     (download_result ev i p,
      s\<lparr>files := (if download_ok ev i p then (files s)(p \<mapsto> Binary []) else files s),
        trace := trace s @ download_events ev i p\<rparr>)"
  by (simp add: download_asset_to_path_def get_asset_contents_def open_for_write_def
      close_file_def emit_def download_result_def download_ok_def download_events_def Let_def
      split: sum.splits option.splits)

lemma written_lookup:
  "written ev pth ids f q =
     (if \<exists>i\<in>set ids. download_ok ev i (pth i) \<and> pth i = q then Some (Binary []) else f q)"
  unfolding written_def by (induction ids arbitrary: f) auto

lemma await_each_downloads:
  "await_each ev (map (\<lambda>i. Download_asset_to_path i (pth i)) ids) results s =
     (results @ map (\<lambda>i. outcome (download_result ev i (pth i))) ids,
      s\<lparr>files := written ev pth ids (files s),
        trace := trace s @ concat (map (\<lambda>i. download_events ev i (pth i)) ids)\<rparr>)"
proof (induction ids arbitrary: results s)
  case Nil
  show ?case by (simp add: written_def)
next
  case (Cons i ids)
  let ?s1 = "s\<lparr>files := (if download_ok ev i (pth i) then (files s)(pth i \<mapsto> Binary []) else files s),
        trace := trace s @ download_events ev i (pth i)\<rparr>"
  have "await_each ev (map (\<lambda>i. Download_asset_to_path i (pth i)) (i # ids)) results s =
      await_each ev (map (\<lambda>i. Download_asset_to_path i (pth i)) ids)
        (results @ [outcome (download_result ev i (pth i))]) ?s1"
    by (simp add: download_asset_to_path_eq outcome_def split: sum.splits)
  also have "\<dots> =
      ((results @ [outcome (download_result ev i (pth i))]) @
         map (\<lambda>i. outcome (download_result ev i (pth i))) ids,
       ?s1\<lparr>files := written ev pth ids (files ?s1),
         trace := trace ?s1 @ concat (map (\<lambda>i. download_events ev i (pth i)) ids)\<rparr>)"
    by (rule Cons.IH)
  also have "\<dots> =
      (results @ map (\<lambda>i. outcome (download_result ev i (pth i))) (i # ids),
       s\<lparr>files := written ev pth (i # ids) (files s),
         trace := trace s @ concat (map (\<lambda>i. download_events ev i (pth i)) (i # ids))\<rparr>)"
    by (simp add: written_def)
  finally show ?case .
qed

lemma set_success_enumerate:
  "n + length results = length rm \<Longrightarrow>
   set_success (enumerate n results) rm sc fc =
     Inr (take n rm @ map2 set_flag (drop n rm) results,
          sc + length (filter fst results),
          fc + length (filter (\<lambda>r. \<not> fst r) results))"
proof (induction results arbitrary: n rm sc fc)
  case Nil
  then show ?case by simp
next
  case (Cons res rest)
  let ?rm = "rm[n := (rm ! n)\<lparr>success := Some (fst res)\<rparr>]"
  from Cons.prems have n: "n < length rm" by simp
  from Cons.prems have len: "Suc n + length rest = length ?rm" by simp
  have t: "take (Suc n) ?rm = take n rm @ [set_flag (rm ! n) res]"
    using n by (simp add: take_Suc_conv_app_nth set_flag_def)
  have d: "drop (Suc n) ?rm = drop (Suc n) rm" by simp
  have c: "drop n rm = rm ! n # drop (Suc n) rm"
    using n by (simp add: Cons_nth_drop_Suc)
  show ?case
    using n by (simp add: Cons.IH [OF len] t d c Let_def del: drop_update_cancel take_update_cancel)
qed

lemma set_success_all:
  "length results = length rm \<Longrightarrow>
   set_success (enumerate 0 results) rm 0 0 =
     Inr (map2 set_flag rm results,
          length (filter fst results), length (filter (\<lambda>r. \<not> fst r) results))"
  using set_success_enumerate [of 0 results rm 0 0] by simp

lemma outcome_fst: "fst (outcome (download_result ev i q)) = download_ok ev i q"
  by (simp add: outcome_def download_ok_def split: sum.splits)

section \<open>Runs of \<^verbatim>\<open>main\<close>\<close>

lemma main_prefix:
  assumes M: "fst (get_asset_information ev ids s) = Inr infos"
  shows "get_asset_information ev ids (emit (Echo ''Fetching asset information...'') s) =
     (Inr infos, s\<lparr>trace := trace s @ Echo ''Fetching asset information...'' #
                      map MetadataRequest (id_chunks ids)\<rparr>)"
  using get_asset_information_ok(1) [OF M, of "emit (Echo ''Fetching asset information...'') s"]
  by (simp add: emit_def)

lemma main_run:
  assumes M: "fst (get_asset_information ev ids s) = Inr infos"
    and P: "set ids \<subseteq> dom infos"
    and W: "open_error ev (manifest_path p) = None"
  shows "main ev p ids s =
     (None, s\<lparr>files := (written ev (asset_path_of p infos) ids (files s))
                  (manifest_path p \<mapsto> Json (final_records ev p infos ids)),
              trace := trace s @ final_trace ev p infos ids\<rparr>)"
proof -
  let ?s1 = "s\<lparr>trace := trace s @ Echo ''Fetching asset information...'' #
                      map MetadataRequest (id_chunks ids)\<rparr>"
  let ?rm = "map (\<lambda>i. record_for i (the (infos i))) ids"
  let ?cs = "map (\<lambda>i. Download_asset_to_path i (asset_path_of p infos i)) ids"
  let ?results = "map (\<lambda>i. outcome (download_result ev i (asset_path_of p infos i))) ids"
  let ?s2 = "?s1\<lparr>files := written ev (asset_path_of p infos) ids (files ?s1),
        trace := trace ?s1 @ concat (map (\<lambda>i. download_events ev i (asset_path_of p infos i)) ids)\<rparr>"
  have b: "build_records p infos ids [] [] = Inr (?rm, ?cs)"
    using build_records_ok [OF P, of p "[]" "[]"] by (simp add: asset_path_of_def)
  have a: "await_each ev ?cs [] ?s1 = (?results, ?s2)"
    using await_each_downloads [of ev "asset_path_of p infos" ids "[]" ?s1] by simp
  have f: "set_success (enumerate 0 ?results) ?rm 0 0 =
     Inr (map2 set_flag ?rm ?results,
          length (filter fst ?results), length (filter (\<lambda>r. \<not> fst r) ?results))"
    by (rule set_success_all) simp
  have z: "map2 set_flag ?rm ?results = final_records ev p infos ids"
    by (simp add: final_records_def zip_map_map map_zip_map zip_same_conv_map)
  have c1: "length (filter fst ?results) =
      length (filter (\<lambda>i. download_ok ev i (asset_path_of p infos i)) ids)"
    by (simp add: filter_map o_def outcome_fst)
  have c2: "length (filter (\<lambda>r. \<not> fst r) ?results) =
      length (filter (\<lambda>i. \<not> download_ok ev i (asset_path_of p infos i)) ids)"
    by (simp add: filter_map o_def outcome_fst)
  have w: "write_manifest ev (manifest_path p) recs t =
      (None, t\<lparr>files := (files t)(manifest_path p \<mapsto> Json recs),
               trace := trace t @ [OpenFile (manifest_path p) ''w'',
                  WriteFile (manifest_path p) (Json recs), CloseFile (manifest_path p)]\<rparr>)" for recs t
    by (simp add: write_manifest_def open_for_write_def W await_file_write_def close_file_def
        emit_def Let_def)
  show ?thesis
    unfolding main_def main_prefix [OF M]
    by (simp add: b a f z w manifest_path_def [symmetric] final_trace_def emit_def filter_map
        comp_def outcome_fst)
qed

lemma main_metadata_fails:
  assumes "c \<in> set (id_chunks ids)" and "develop ev c = Inl e"
  shows "\<exists>e' c' k. main ev p ids s =
           (Some e', s\<lparr>trace := trace s @ Echo ''Fetching asset information...'' #
                       map MetadataRequest (take k (id_chunks ids))\<rparr>) \<and>
         c' \<in> set (id_chunks ids) \<and> develop ev c' = Inl e'"
proof -
  from get_asset_information_fail [OF assms, of "emit (Echo ''Fetching asset information...'') s"]
  obtain e' c' k where
    G: "get_asset_information ev ids (emit (Echo ''Fetching asset information...'') s) =
        (Inl e', (emit (Echo ''Fetching asset information...'') s)
           \<lparr>trace := trace (emit (Echo ''Fetching asset information...'') s) @
              map MetadataRequest (take k (id_chunks ids))\<rparr>)"
    and C: "c' \<in> set (id_chunks ids)" "develop ev c' = Inl e'"
    by blast
  have "main ev p ids s =
           (Some e', s\<lparr>trace := trace s @ Echo ''Fetching asset information...'' #
                       map MetadataRequest (take k (id_chunks ids))\<rparr>)"
    unfolding main_def G by (simp add: emit_def)
  with C show ?thesis by blast
qed

lemma main_key_error:
  assumes M: "fst (get_asset_information ev ids s) = Inr infos"
    and X: "x \<in> set ids" "infos x = None"
  shows "\<exists>k. main ev p ids s =
           (Some (KeyError k), s\<lparr>trace := trace s @ Echo ''Fetching asset information...'' #
                       map MetadataRequest (id_chunks ids)\<rparr>) \<and>
         find (\<lambda>i. infos i = None) ids = Some k"
proof -
  from build_records_missing [where x=x and ids=ids and infos=infos and p=p and rm="[]" and cs="[]"] X
  obtain k where B: "build_records p infos ids [] [] = Inl (KeyError k)"
    and F: "find (\<lambda>i. infos i = None) ids = Some k"
    by blast
  have "main ev p ids s =
           (Some (KeyError k), s\<lparr>trace := trace s @ Echo ''Fetching asset information...'' #
                       map MetadataRequest (id_chunks ids)\<rparr>)"
    unfolding main_def main_prefix [OF M] by (simp add: B)
  with F show ?thesis by blast
qed

lemma main_manifest_fails:
  assumes M: "fst (get_asset_information ev ids s) = Inr infos"
    and P: "set ids \<subseteq> dom infos"
    and W: "open_error ev (manifest_path p) = Some e"
  shows "fst (main ev p ids s) = Some e"
proof -
  let ?s1 = "s\<lparr>trace := trace s @ Echo ''Fetching asset information...'' #
                      map MetadataRequest (id_chunks ids)\<rparr>"
  let ?rm = "map (\<lambda>i. record_for i (the (infos i))) ids"
  let ?cs = "map (\<lambda>i. Download_asset_to_path i (asset_path_of p infos i)) ids"
  let ?results = "map (\<lambda>i. outcome (download_result ev i (asset_path_of p infos i))) ids"
  have b: "build_records p infos ids [] [] = Inr (?rm, ?cs)"
    using build_records_ok [OF P, of p "[]" "[]"] by (simp add: asset_path_of_def)
  have a: "await_each ev ?cs [] ?s1 =
      (?results, ?s1\<lparr>files := written ev (asset_path_of p infos) ids (files ?s1),
        trace := trace ?s1 @ concat (map (\<lambda>i. download_events ev i (asset_path_of p infos i)) ids)\<rparr>)"
    using await_each_downloads [of ev "asset_path_of p infos" ids "[]" ?s1] by simp
  have f: "set_success (enumerate 0 ?results) ?rm 0 0 =
     Inr (map2 set_flag ?rm ?results,
          length (filter fst ?results), length (filter (\<lambda>r. \<not> fst r) ?results))"
    by (rule set_success_all) simp
  have w: "fst (write_manifest ev (manifest_path p) recs t) = Some e" for recs t
    by (simp add: write_manifest_def open_for_write_def W Let_def)
  show ?thesis
    unfolding main_def main_prefix [OF M]
    by (simp add: a b f w manifest_path_def [symmetric])
qed

lemma main_completed:
  assumes "fst (main ev p ids s) = None"
  shows "\<exists>infos. fst (get_asset_information ev ids s) = Inr infos \<and> set ids \<subseteq> dom infos \<and>
           open_error ev (manifest_path p) = None"
proof (cases "fst (get_asset_information ev ids s)")
  case (Inl e)
  have "\<exists>c\<in>set (id_chunks ids). \<exists>e. develop ev c = Inl e"
  proof (rule ccontr)
    assume "\<not> ?thesis"
    then have "\<forall>c\<in>set (id_chunks ids). \<exists>ds. develop ev c = Inr ds"
      by (metis sum.exhaust)
    from fetch_chunks_ok [OF this, of Map.empty s] Inl show False
      by (simp add: get_asset_information_def)
  qed
  then obtain c e1 where "c \<in> set (id_chunks ids)" "develop ev c = Inl e1" by blast
  from main_metadata_fails [OF this, of p s] assms show ?thesis by auto
next
  case (Inr infos)
  show ?thesis
  proof (cases "set ids \<subseteq> dom infos")
    case False
    then obtain x where "x \<in> set ids" "infos x = None" by auto
    from main_key_error [where x=x and ids=ids and infos=infos and p=p and s=s and ev=ev] Inr this assms
    show ?thesis by auto
  next
    case True
    show ?thesis
    proof (cases "open_error ev (manifest_path p)")
      case None
      with Inr True show ?thesis by blast
    next
      case (Some e)
      from main_manifest_fails [OF Inr True Some] assms show ?thesis by simp
    qed
  qed
qed

lemma extension_table: "dict_get asset_type_to_extension t ''bin'' = spec_extension t"
  by (simp add: dict_get_def asset_type_to_extension_def spec_extension_def)

lemma merged_lookup:
  "merged ev ids k = last_with_id (concat (map (response_data ev) (id_chunks ids))) k"
  by (simp add: merged_def store_data_lookup split: option.splits)

lemma merged_id: "merged ev ids k = Some d \<Longrightarrow> data_id d = k"
  using last_with_id_id [of "concat (map (response_data ev) (id_chunks ids))" k d]
  by (simp add: merged_lookup)

lemma final_records_length: "length (final_records ev p infos ids) = length ids"
  by (simp add: final_records_def)

lemma final_records_nth:
  "i < length ids \<Longrightarrow>
   final_records ev p infos ids ! i =
     (record_for (ids ! i) (the (infos (ids ! i))))
       \<lparr>success := Some (download_ok ev (ids ! i) (asset_path_of p infos (ids ! i)))\<rparr>"
  by (simp add: final_records_def set_flag_def outcome_fst)

text \<open>A run that ends without an exception is the run that \<open>main_run\<close> describes.\<close>

lemma manifest_after_run:
  assumes "main ev p ids s = (None, s')"
  shows "\<exists>infos. fst (get_asset_information ev ids s) = Inr infos \<and> set ids \<subseteq> dom infos \<and>
           infos = merged ev ids \<and>
           open_error ev (manifest_path p) = None \<and>
           s' = s\<lparr>files := (written ev (asset_path_of p infos) ids (files s))
                  (manifest_path p \<mapsto> Json (final_records ev p infos ids)),
                 trace := trace s @ final_trace ev p infos ids\<rparr>"
proof -
  from assms have "fst (main ev p ids s) = None" by simp
  from main_completed [OF this] obtain infos where
    M: "fst (get_asset_information ev ids s) = Inr infos" and P: "set ids \<subseteq> dom infos"
    and W: "open_error ev (manifest_path p) = None"
    by blast
  from main_run [OF M P W] assms have
    "s' = s\<lparr>files := (written ev (asset_path_of p infos) ids (files s))
                  (manifest_path p \<mapsto> Json (final_records ev p infos ids)),
                 trace := trace s @ final_trace ev p infos ids\<rparr>"
    by simp
  with M P W get_asset_information_ok(2) [OF M] show ?thesis by blast
qed

section \<open>The concrete services\<close>

lemma demo_develop: "\<forall>c\<in>set (id_chunks ids). \<exists>ds. develop demo_env c = Inr ds"
  by (simp add: demo_env_def)

lemma demo_metadata: "fst (get_asset_information demo_env ids s) = Inr (merged demo_env ids)"
  using fetch_chunks_ok [OF demo_develop, of ids Map.empty s]
  by (simp add: get_asset_information_def merged_def)

section \<open>The properties\<close>

text \<open>
  C5. The metadata fetcher splits the id list into consecutive chunks of at most 50 ids
  that keep the input order: the chunks concatenated are the input, no chunk is empty or
  longer than 50, a list of 120 ids gives chunks of 50, 50 and 20 ids, and a fetch that
  succeeds has issued exactly one metadata query per chunk, in order.
\<close>

theorem C5_chunks_of_fifty:
  "concat (id_chunks ids) = ids \<and>
   (\<forall>c\<in>set (id_chunks ids). 0 < length c \<and> length c \<le> 50) \<and>
   (length ids = 120 \<longrightarrow> map length (id_chunks ids) = [50, 50, 20]) \<and>
   (\<forall>infos. fst (get_asset_information ev ids s) = Inr infos \<longrightarrow>
      trace (snd (get_asset_information ev ids s)) = trace s @ map MetadataRequest (id_chunks ids))"
proof -
  have "trace (snd (get_asset_information ev ids s)) = trace s @ map MetadataRequest (id_chunks ids)"
    if "fst (get_asset_information ev ids s) = Inr infos" for infos
    using get_asset_information_ok(1) [OF that, of s] by simp
  then show ?thesis
    using concat_id_chunks [of ids] id_chunks_bounds [of _ ids] id_chunks_120 [of ids] by blast
qed

theorem C5_chunks_of_fifty_witness:
  "length (map int [0..<120]) = 120 \<and>
   map length (id_chunks (map int [0..<120])) = [50, 50, 20] \<and>
   concat (id_chunks (map int [0..<120])) = map int [0..<120] \<and>
   trace (snd (get_asset_information demo_env (map int [0..<120]) empty_state)) =
     map MetadataRequest (id_chunks (map int [0..<120]))"
proof -
  have l: "length (map int [0..<120]) = 120" by simp
  have e: "trace empty_state = []" by (simp add: empty_state_def)
  from C5_chunks_of_fifty [of "map int [0..<120]" demo_env empty_state] l demo_metadata e
  show ?thesis by simp
qed

lemma files_manifest_after:
  "files (s\<lparr>files := (written ev pth ids (files s))(manifest_path p \<mapsto> Json recs),
             trace := tr\<rparr>) (path_join p ''assets.json'') = Some (Json recs)"
  by (simp add: manifest_path_def)

lemma demo_present: "set ids \<subseteq> dom (merged demo_env ids)"
proof
  fix k assume k: "k \<in> set ids"
  have "concat (map (response_data demo_env) (id_chunks ids)) = map demo_data ids"
  proof -
    have "map (response_data demo_env) (id_chunks ids) = map (map demo_data) (id_chunks ids)"
      by (simp add: response_data_def demo_env_def)
    then have "concat (map (response_data demo_env) (id_chunks ids)) =
        concat (map (map demo_data) (id_chunks ids))"
      by (rule arg_cong)
    also have "\<dots> = map demo_data (concat (id_chunks ids))"
      by (simp add: map_concat)
    finally show ?thesis by (simp add: concat_id_chunks)
  qed
  then have "data_id ` set (concat (map (response_data demo_env) (id_chunks ids))) = set ids"
    by (simp add: image_image demo_data_def)
  with k have "last_with_id (concat (map (response_data demo_env) (id_chunks ids))) k \<noteq> None"
    by (simp add: last_with_id_None)
  then show "k \<in> dom (merged demo_env ids)"
    by (simp add: merged_lookup dom_def)
qed

lemma demo_completes: "fst (main demo_env p ids s) = None"
proof -
  have "open_error demo_env (manifest_path p) = None" by (simp add: demo_env_def)
  from main_run [OF demo_metadata demo_present this] show ?thesis by simp
qed

text \<open>
  C3. When the metadata of every requested id has been fetched and the manifest can be
  opened, the run ends without an exception and the manifest holds one record per
  requested id, in the order of the input list (the ids of the records, read in order,
  are the input list), and every record has its \<^verbatim>\<open>success\<close> key set.
\<close>

theorem C3_manifest_follows_input:
  assumes "fst (get_asset_information ev ids s) = Inr infos"
    and "set ids \<subseteq> dom infos"
    and "open_error ev (path_join p ''assets.json'') = None"
  shows "\<exists>recs s'. main ev p ids s = (None, s') \<and>
           files s' (path_join p ''assets.json'') = Some (Json recs) \<and>
           length recs = length ids \<and> map rec_id recs = ids \<and>
           (\<forall>r\<in>set recs. \<exists>b. success r = Some b)"
proof -
  let ?recs = "final_records ev p infos ids"
  from assms(3) have W: "open_error ev (manifest_path p) = None" by (simp add: manifest_path_def)
  note run = main_run [OF assms(1) assms(2) W]
  have inf: "infos = merged ev ids" by (rule get_asset_information_ok(2) [OF assms(1)])
  have "rec_id (set_flag (record_for i (the (infos i))) x) = i" if "i \<in> set ids" for i x
  proof -
    from that assms(2) obtain d where d: "infos i = Some d" by auto
    with inf have "data_id d = i" using merged_id by blast
    with d show ?thesis by (simp add: set_flag_def record_for_def)
  qed
  then have ids: "map rec_id ?recs = ids"
    by (simp add: final_records_def map_idI)
  have flags: "\<forall>r\<in>set ?recs. \<exists>b. success r = Some b"
    by (auto simp: final_records_def set_flag_def)
  have "files (snd (main ev p ids s)) (path_join p ''assets.json'') = Some (Json ?recs)"
    by (simp only: run snd_conv files_manifest_after)
  with run ids flags final_records_length [of ev p infos ids] show ?thesis
    by (metis snd_conv)
qed

theorem C3_manifest_follows_input_witness:
  "\<exists>recs s'. main demo_env [''out''] [3, 1, 2] empty_state = (None, s') \<and>
     files s' (path_join [''out''] ''assets.json'') = Some (Json recs) \<and>
     length recs = length [3, 1, 2 :: int] \<and> map rec_id recs = [3, 1, 2] \<and>
     (\<forall>r\<in>set recs. \<exists>b. success r = Some b)"
proof -
  have "open_error demo_env (path_join [''out''] ''assets.json'') = None"
    by (simp add: demo_env_def)
  from C3_manifest_follows_input
    [where ev = demo_env and ids = "[3, 1, 2]" and s = empty_state and p = "[''out'']"
       and infos = "merged demo_env [3, 1, 2]", OF demo_metadata demo_present this]
  show ?thesis .
qed

text \<open>
  C4. In the manifest of a run that ends without an exception, the file name of every
  record is the decimal id, a dot, and the extension of the record's type code in the
  table 1 png, 3 mp3, 5 lua, 7 txt, 9 rbxl, 10 rbxm with bin for every other code: type 1
  gives id.png and type 999 gives id.bin.
\<close>

theorem C4_filename_from_type:
  assumes "main ev p ids s = (None, s')"
  shows "\<exists>recs. files s' (path_join p ''assets.json'') = Some (Json recs) \<and>
           length recs = length ids \<and>
           (\<forall>i<length ids.
              filename (recs ! i) = str_int (ids ! i) @ ''.'' @ spec_extension (type_id (recs ! i)) \<and>
              (type_id (recs ! i) = 1 \<longrightarrow> filename (recs ! i) = str_int (ids ! i) @ ''.png'') \<and>
              (type_id (recs ! i) = 999 \<longrightarrow> filename (recs ! i) = str_int (ids ! i) @ ''.bin''))"
proof -
  from manifest_after_run [OF assms] obtain infos where
    s': "s' = s\<lparr>files := (written ev (asset_path_of p infos) ids (files s))
                  (manifest_path p \<mapsto> Json (final_records ev p infos ids)),
                 trace := trace s @ final_trace ev p infos ids\<rparr>"
    by blast
  let ?recs = "final_records ev p infos ids"
  have f: "files s' (path_join p ''assets.json'') = Some (Json ?recs)"
    by (simp only: s' files_manifest_after)
  have n: "filename (?recs ! i) = str_int (ids ! i) @ ''.'' @ spec_extension (type_id (?recs ! i))"
    if "i < length ids" for i
    using that by (simp add: final_records_nth record_for_def filename_for_def extension_table)
  have "(type_id (?recs ! i) = 1 \<longrightarrow> filename (?recs ! i) = str_int (ids ! i) @ ''.png'') \<and>
        (type_id (?recs ! i) = 999 \<longrightarrow> filename (?recs ! i) = str_int (ids ! i) @ ''.bin'')"
    if "i < length ids" for i
    using n [OF that] by (simp add: spec_extension_def)
  with f n final_records_length [of ev p infos ids] show ?thesis by blast
qed

theorem C4_filename_from_type_witness:
  "main demo_env [''out''] [1, 2] empty_state = (None, snd (main demo_env [''out''] [1, 2] empty_state)) \<and>
   (\<exists>recs. files (snd (main demo_env [''out''] [1, 2] empty_state)) (path_join [''out''] ''assets.json'')
        = Some (Json recs) \<and>
      map type_id recs = [1, 999] \<and> map filename recs = [''1.png'', ''2.bin''])"
proof -
  have h: "main demo_env [''out''] [1, 2] empty_state =
      (None, snd (main demo_env [''out''] [1, 2] empty_state))"
    using demo_completes [of "[''out'']" "[1, 2]" empty_state] by (simp add: prod_eq_iff)
  from C4_filename_from_type [OF h] obtain recs where
    f: "files (snd (main demo_env [''out''] [1, 2] empty_state)) (path_join [''out''] ''assets.json'')
        = Some (Json recs)"
    by blast
  have v: "files (snd (main demo_env [''out''] [1, 2] empty_state)) (path_join [''out''] ''assets.json'')
      = Some (Json [\<lparr>name = ''asset'', rec_id = 1, filename = ''1.png'', type_id = 1, success = Some True\<rparr>,
                    \<lparr>name = ''asset'', rec_id = 2, filename = ''2.bin'', type_id = 999, success = Some False\<rparr>])"
    by code_simp
  from f v have r: "recs =
      [\<lparr>name = ''asset'', rec_id = 1, filename = ''1.png'', type_id = 1, success = Some True\<rparr>,
       \<lparr>name = ''asset'', rec_id = 2, filename = ''2.bin'', type_id = 999, success = Some False\<rparr>]"
    by simp
  show ?thesis
  proof (rule conjI [OF h], rule exI [of _ recs], intro conjI)
    show "files (snd (main demo_env [''out''] [1, 2] empty_state)) (path_join [''out''] ''assets.json'')
        = Some (Json recs)"
      by (rule f)
    show "map type_id recs = [1, 999]" by (simp add: r)
    show "map filename recs = [''1.png'', ''2.bin'']" by (simp add: r)
  qed
qed

lemma run_witness: "main demo_env p ids s = (None, snd (main demo_env p ids s))"
  using demo_completes [of p ids s] by (simp add: prod_eq_iff)

text \<open>
  C9. In a run that ends without an exception, the records are built before any
  download is awaited, with the keys \<^verbatim>\<open>name\<close>, \<^verbatim>\<open>id\<close>, \<^verbatim>\<open>filename\<close> and \<^verbatim>\<open>type_id\<close> and
  without the key \<^verbatim>\<open>success\<close>; every record of the manifest is the record that was
  built, with nothing but \<^verbatim>\<open>success\<close> set.
\<close>

theorem C9_only_success_changes:
  assumes "main ev p ids s = (None, s')"
  shows "\<exists>infos rm cs recs.
           fst (get_asset_information ev ids s) = Inr infos \<and>
           build_records p infos ids [] [] = Inr (rm, cs) \<and>
           (\<forall>r\<in>set rm. success r = None) \<and>
           files s' (path_join p ''assets.json'') = Some (Json recs) \<and>
           length recs = length rm \<and>
           (\<forall>i<length rm. \<exists>b. recs ! i = (rm ! i)\<lparr>success := Some b\<rparr>)"
proof -
  from manifest_after_run [OF assms] obtain infos where
    M: "fst (get_asset_information ev ids s) = Inr infos" and P: "set ids \<subseteq> dom infos"
    and s': "s' = s\<lparr>files := (written ev (asset_path_of p infos) ids (files s))
                  (manifest_path p \<mapsto> Json (final_records ev p infos ids)),
                 trace := trace s @ final_trace ev p infos ids\<rparr>"
    by blast
  let ?rm = "map (\<lambda>i. record_for i (the (infos i))) ids"
  let ?cs = "map (\<lambda>i. Download_asset_to_path i (path_join p (filename_for i (the (infos i))))) ids"
  let ?recs = "final_records ev p infos ids"
  have b: "build_records p infos ids [] [] = Inr (?rm, ?cs)"
    using build_records_ok [OF P, of p "[]" "[]"] by simp
  have n: "\<forall>r\<in>set ?rm. success r = None"
    by (auto simp: record_for_def)
  have f: "files s' (path_join p ''assets.json'') = Some (Json ?recs)"
    by (simp only: s' files_manifest_after)
  have l: "length ?recs = length ?rm"
    by (simp add: final_records_length)
  have u: "\<forall>i<length ?rm. \<exists>b. ?recs ! i = (?rm ! i)\<lparr>success := Some b\<rparr>"
    by (auto simp: final_records_nth)
  from M b n f l u show ?thesis by blast
qed

theorem C9_only_success_changes_witness:
  "\<exists>infos rm cs recs.
     main demo_env [''out''] [1, 2] empty_state = (None, snd (main demo_env [''out''] [1, 2] empty_state)) \<and>
     fst (get_asset_information demo_env [1, 2] empty_state) = Inr infos \<and>
     build_records [''out''] infos [1, 2] [] [] = Inr (rm, cs) \<and>
     map success rm = [None, None] \<and>
     files (snd (main demo_env [''out''] [1, 2] empty_state)) (path_join [''out''] ''assets.json'')
       = Some (Json recs) \<and>
     map success recs = [Some True, Some False] \<and>
     map (\<lambda>r. r\<lparr>success := None\<rparr>) recs = rm"
proof -
  from C9_only_success_changes [OF run_witness [of "[''out'']" "[1, 2]" empty_state]]
  obtain infos rm cs recs where
    M: "fst (get_asset_information demo_env [1, 2] empty_state) = Inr infos"
    and b: "build_records [''out''] infos [1, 2] [] [] = Inr (rm, cs)"
    and n: "\<forall>r\<in>set rm. success r = None"
    and f: "files (snd (main demo_env [''out''] [1, 2] empty_state)) (path_join [''out''] ''assets.json'')
       = Some (Json recs)"
    and l: "length recs = length rm"
    and u: "\<forall>i<length rm. \<exists>b. recs ! i = (rm ! i)\<lparr>success := Some b\<rparr>"
    by blast
  have v: "files (snd (main demo_env [''out''] [1, 2] empty_state)) (path_join [''out''] ''assets.json'')
      = Some (Json [\<lparr>name = ''asset'', rec_id = 1, filename = ''1.png'', type_id = 1, success = Some True\<rparr>,
                    \<lparr>name = ''asset'', rec_id = 2, filename = ''2.bin'', type_id = 999, success = Some False\<rparr>])"
    by code_simp
  from f v have r: "recs =
      [\<lparr>name = ''asset'', rec_id = 1, filename = ''1.png'', type_id = 1, success = Some True\<rparr>,
       \<lparr>name = ''asset'', rec_id = 2, filename = ''2.bin'', type_id = 999, success = Some False\<rparr>]"
    by simp
  from l r have l2: "length rm = 2" by simp
  from u l2 have "\<exists>b. recs ! 0 = (rm ! 0)\<lparr>success := Some b\<rparr>" "\<exists>b. recs ! 1 = (rm ! 1)\<lparr>success := Some b\<rparr>"
    by simp_all
  then have e: "(recs ! 0)\<lparr>success := None\<rparr> = (rm ! 0)\<lparr>success := None\<rparr>"
      "(recs ! 1)\<lparr>success := None\<rparr> = (rm ! 1)\<lparr>success := None\<rparr>"
    by auto
  from n l2 have z: "success (rm ! 0) = None" "success (rm ! 1) = None" by simp_all
  from e z have e': "(recs ! 0)\<lparr>success := None\<rparr> = rm ! 0" "(recs ! 1)\<lparr>success := None\<rparr> = rm ! 1"
    by simp_all
  from l2 obtain a c where rm: "rm = [a, c]"
    by (metis (no_types) length_0_conv length_Suc_conv numeral_2_eq_2)
  show ?thesis
  proof (rule exI [of _ infos], rule exI [of _ rm], rule exI [of _ cs], rule exI [of _ recs],
      intro conjI)
    show "main demo_env [''out''] [1, 2] empty_state = (None, snd (main demo_env [''out''] [1, 2] empty_state))"
      by (rule run_witness)
    show "fst (get_asset_information demo_env [1, 2] empty_state) = Inr infos" by (rule M)
    show "build_records [''out''] infos [1, 2] [] [] = Inr (rm, cs)" by (rule b)
    show "map success rm = [None, None]" using z by (simp add: rm)
    show "files (snd (main demo_env [''out''] [1, 2] empty_state)) (path_join [''out''] ''assets.json'')
       = Some (Json recs)" by (rule f)
    show "map success recs = [Some True, Some False]" by (simp add: r)
    show "map (\<lambda>r. r\<lparr>success := None\<rparr>) recs = rm" using e' by (simp add: rm r)
  qed
qed

text \<open>
  C10. With an id that occurs more than once in the input, the merged metadata still has
  one entry per id, the last object with that id over all the responses in order; the
  manifest has one record per occurrence, so it is as long as the input, and the records
  of two occurrences of one id agree on the file name and on every key but
  \<^verbatim>\<open>success\<close>.
\<close>

theorem C10_duplicate_ids:
  assumes "main ev p ids s = (None, s')"
  shows "\<exists>infos recs.
           fst (get_asset_information ev ids s) = Inr infos \<and>
           (\<forall>k. infos k = last_with_id (concat (map (response_data ev) (id_chunks ids))) k) \<and>
           files s' (path_join p ''assets.json'') = Some (Json recs) \<and>
           length recs = length ids \<and>
           (\<forall>i<length ids. \<forall>j<length ids. ids ! i = ids ! j \<longrightarrow>
              filename (recs ! i) = filename (recs ! j) \<and>
              (recs ! i)\<lparr>success := None\<rparr> = (recs ! j)\<lparr>success := None\<rparr>)"
proof -
  from manifest_after_run [OF assms] obtain infos where
    M: "fst (get_asset_information ev ids s) = Inr infos"
    and I: "infos = merged ev ids"
    and s': "s' = s\<lparr>files := (written ev (asset_path_of p infos) ids (files s))
                  (manifest_path p \<mapsto> Json (final_records ev p infos ids)),
                 trace := trace s @ final_trace ev p infos ids\<rparr>"
    by blast
  let ?recs = "final_records ev p infos ids"
  have k: "\<forall>k. infos k = last_with_id (concat (map (response_data ev) (id_chunks ids))) k"
    by (simp add: I merged_lookup)
  have f: "files s' (path_join p ''assets.json'') = Some (Json ?recs)"
    by (simp only: s' files_manifest_after)
  have d: "\<forall>i<length ids. \<forall>j<length ids. ids ! i = ids ! j \<longrightarrow>
              filename (?recs ! i) = filename (?recs ! j) \<and>
              (?recs ! i)\<lparr>success := None\<rparr> = (?recs ! j)\<lparr>success := None\<rparr>"
    by (simp add: final_records_nth)
  from M k f d final_records_length [of ev p infos ids] show ?thesis by blast
qed

theorem C10_duplicate_ids_witness:
  "main demo_env [''out''] [1, 3, 1] empty_state =
     (None, snd (main demo_env [''out''] [1, 3, 1] empty_state)) \<and>
   [1, 3, 1] ! 0 = ([1, 3, 1] ! 2 :: int) \<and>
   (\<exists>recs. files (snd (main demo_env [''out''] [1, 3, 1] empty_state)) (path_join [''out''] ''assets.json'')
       = Some (Json recs) \<and>
     length recs = 3 \<and> filename (recs ! 0) = filename (recs ! 2))"
proof -
  from C10_duplicate_ids [OF run_witness [of "[''out'']" "[1, 3, 1]" empty_state]]
  obtain infos recs where
    f: "files (snd (main demo_env [''out''] [1, 3, 1] empty_state)) (path_join [''out''] ''assets.json'')
       = Some (Json recs)"
    and l: "length recs = length [1, 3, 1 :: int]"
    and d: "\<forall>i<length [1, 3, 1 :: int]. \<forall>j<length [1, 3, 1 :: int]. [1, 3, 1 :: int] ! i = [1, 3, 1] ! j \<longrightarrow>
              filename (recs ! i) = filename (recs ! j) \<and>
              (recs ! i)\<lparr>success := None\<rparr> = (recs ! j)\<lparr>success := None\<rparr>"
    by blast
  have "(0::nat) < length [1, 3, 1 :: int]" "(2::nat) < length [1, 3, 1 :: int]"
    "[1, 3, 1] ! 0 = ([1, 3, 1] ! 2 :: int)" by simp_all
  with d have "filename (recs ! 0) = filename (recs ! 2)" by blast
  with f l run_witness [of "[''out'']" "[1, 3, 1]" empty_state] show ?thesis by simp
qed

lemma chunks_of_two: "id_chunks [a, b] = [[a, b]]"
  by (simp add: id_chunks_def chunk_size_def py_range.simps)

lemma merged_absent:
  "merged ev ids k = None \<longleftrightarrow> (\<forall>c\<in>set (id_chunks ids). k \<notin> data_id ` set (response_data ev c))"
  by (auto simp: merged_lookup last_with_id_None)

lemma omitting_metadata:
  "fst (get_asset_information omitting_env ids s) = Inr (merged omitting_env ids)"
proof -
  have "\<forall>c\<in>set (id_chunks ids). \<exists>ds. develop omitting_env c = Inr ds"
    by (simp add: omitting_env_def demo_env_def)
  from fetch_chunks_ok [OF this, of Map.empty s] show ?thesis
    by (simp add: get_asset_information_def merged_def)
qed

text \<open>
  C6. When the metadata query of some chunk fails, the run ends with an exception, no file
  has been created or changed (neither an asset file nor the manifest), and all the run
  has done is its first message and metadata queries: no download was started.
\<close>

theorem C6_metadata_failure_aborts:
  assumes "c \<in> set (id_chunks ids)" and "develop ev c = Inl e"
  shows "\<exists>e' s' k. main ev p ids s = (Some e', s') \<and> files s' = files s \<and>
           trace s' = trace s @ Echo ''Fetching asset information...'' #
                        map MetadataRequest (take k (id_chunks ids))"
proof -
  let ?s' = "\<lambda>k. s\<lparr>trace := trace s @ Echo ''Fetching asset information...'' #
                       map MetadataRequest (take k (id_chunks ids))\<rparr>"
  from main_metadata_fails [OF assms, of p s] obtain e' k where
    m: "main ev p ids s = (Some e', ?s' k)"
    by blast
  have "files (?s' k) = files s" by simp
  moreover have "trace (?s' k) = trace s @ Echo ''Fetching asset information...'' #
                       map MetadataRequest (take k (id_chunks ids))"
    by simp
  ultimately show ?thesis using m by blast
qed

theorem C6_metadata_failure_aborts_witness:
  "[1, 2] \<in> set (id_chunks [1, 2]) \<and>
   develop failing_env [1, 2] = Inl (ClientResponseError 500) \<and>
   (\<exists>e' s' k. main failing_env [''out''] [1, 2] empty_state = (Some e', s') \<and>
      files s' = files empty_state \<and>
      trace s' = trace empty_state @ Echo ''Fetching asset information...'' #
                   map MetadataRequest (take k (id_chunks [1, 2])))"
proof -
  have c: "[1, 2] \<in> set (id_chunks [1, 2])" by (simp add: chunks_of_two)
  have d: "develop failing_env [1, 2] = Inl (ClientResponseError 500)"
    by (simp add: failing_env_def)
  from C6_metadata_failure_aborts [OF c d, of "[''out'']" empty_state] c d
  show ?thesis by blast
qed

text \<open>
  C8. When the metadata queries succeed and a requested id is absent from the merged
  metadata, the run ends with \<^verbatim>\<open>KeyError\<close> for the first such id of the input list (an id
  that no response contains), no file has been created or changed, and all the run has
  done is its first message and the metadata queries: no download was started.
\<close>

theorem C8_missing_metadata_is_fatal:
  assumes "fst (get_asset_information ev ids s) = Inr infos"
    and "x \<in> set ids" and "infos x = None"
  shows "\<exists>k s'. main ev p ids s = (Some (KeyError k), s') \<and>
           find (\<lambda>i. infos i = None) ids = Some k \<and>
           (\<forall>c\<in>set (id_chunks ids). k \<notin> data_id ` set (response_data ev c)) \<and>
           files s' = files s \<and>
           trace s' = trace s @ Echo ''Fetching asset information...'' #
                        map MetadataRequest (id_chunks ids)"
proof -
  from main_key_error [where x = x and ids = ids and infos = infos and p = p and s = s and ev = ev]
    assms
  obtain k where
    m: "main ev p ids s =
       (Some (KeyError k), s\<lparr>trace := trace s @ Echo ''Fetching asset information...'' #
                       map MetadataRequest (id_chunks ids)\<rparr>)"
    and f: "find (\<lambda>i. infos i = None) ids = Some k"
    by blast
  from f have "infos k = None" by (auto simp: find_Some_iff)
  with get_asset_information_ok(2) [OF assms(1)]
  have "\<forall>c\<in>set (id_chunks ids). k \<notin> data_id ` set (response_data ev c)"
    by (simp add: merged_absent)
  with m f show ?thesis by simp
qed

theorem C8_missing_metadata_is_fatal_witness:
  "fst (get_asset_information omitting_env [1, 2] empty_state) = Inr (merged omitting_env [1, 2]) \<and>
   2 \<in> set [1, 2 :: int] \<and> merged omitting_env [1, 2] 2 = None \<and>
   (\<exists>s'. main omitting_env [''out''] [1, 2] empty_state = (Some (KeyError 2), s') \<and>
      files s' = files empty_state \<and>
      trace s' = trace empty_state @ Echo ''Fetching asset information...'' #
                   map MetadataRequest (id_chunks [1, 2]))"
proof -
  have r: "response_data omitting_env [1, 2] = [demo_data 1]"
    by (simp add: response_data_def omitting_env_def)
  have a: "merged omitting_env [1, 2] 2 = None"
    by (simp add: merged_absent chunks_of_two r demo_data_def)
  have b: "merged omitting_env [1, 2] 1 \<noteq> None"
    by (simp add: merged_absent chunks_of_two r demo_data_def)
  have x: "2 \<in> set [1, 2 :: int]" by simp
  from C8_missing_metadata_is_fatal
    [where ev = omitting_env and ids = "[1, 2]" and s = empty_state and x = 2
       and infos = "merged omitting_env [1, 2]" and p = "[''out'']", OF omitting_metadata x a]
  obtain k s' where m: "main omitting_env [''out''] [1, 2] empty_state = (Some (KeyError k), s')"
    and f: "find (\<lambda>i. merged omitting_env [1, 2] i = None) [1, 2] = Some k"
    and u: "files s' = files empty_state"
    and t: "trace s' = trace empty_state @ Echo ''Fetching asset information...'' #
                   map MetadataRequest (id_chunks [1, 2])"
    by blast
  from f a b have "k = 2" by simp
  with m u t omitting_metadata [of "[1, 2]" empty_state] x a show ?thesis by blast
qed

section \<open>Paths, downloads and the trace of a run\<close>

lemma path_join_eq: "path_join p a = path_join p b \<longleftrightarrow> a = b"
  by (simp add: path_join_def)

lemma asset_path_not_manifest: "path_join p (filename_for i d) \<noteq> manifest_path p"
  by (simp add: manifest_path_def path_join_eq filename_for_def filename_not_manifest
      del: append.simps)

lemma asset_path_inj:
  "path_join p (filename_for i d) = path_join p (filename_for j d') \<Longrightarrow> i = j"
  unfolding path_join_eq filename_for_def by (rule filename_inj)

lemma download_fst: "fst (download_asset_to_path ev i q t) = download_result ev i q"
  by (simp add: download_asset_to_path_eq)

lemma download_ok_iff: "download_ok ev i q \<longleftrightarrow> fst (download_asset_to_path ev i q t) = Inr ()"
  by (simp add: download_fst download_ok_def split: sum.splits)

lemma content_requests_of_download:
  "filter is_content_request (download_events ev i q) = [ContentRequest i]"
  by (simp add: download_events_def split: sum.splits option.splits)

lemma content_requests_of_run:
  "filter is_content_request (final_trace ev p infos ids) = map ContentRequest ids"
proof -
  have "concat (map (\<lambda>i. filter is_content_request (download_events ev i (asset_path_of p infos i))) ids)
      = map ContentRequest ids"
    by (induction ids) (simp_all add: content_requests_of_download)
  then show ?thesis
    by (simp add: final_trace_def filter_concat comp_def)
qed

lemma demo_merged: "k \<in> set ids \<Longrightarrow> merged demo_env ids k = Some (demo_data k)"
proof -
  assume k: "k \<in> set ids"
  with demo_present [of ids] obtain d where d: "merged demo_env ids k = Some d" by auto
  then have i: "data_id d = k" by (rule merged_id)
  from d have "last_with_id (concat (map (response_data demo_env) (id_chunks ids))) k = Some d"
    by (simp add: merged_lookup)
  then have "d \<in> set (concat (map (response_data demo_env) (id_chunks ids)))"
    using last_with_id_id by blast
  then obtain c where "d \<in> set (response_data demo_env c)" by auto
  then obtain j where "d = demo_data j" by (auto simp: response_data_def demo_env_def)
  with i have "d = demo_data k" by (simp add: demo_data_def)
  with d show ?thesis by simp
qed

lemma two_records: "length xs = 2 \<Longrightarrow> xs = [xs ! 0, xs ! 1]"
  by (cases xs; cases "tl xs") auto

lemma run_alone_download:
  "run_alone ev (Download_asset_to_path i q) = download_events ev i q"
  by (simp add: run_alone_def download_asset_to_path_eq)

lemma download_leaves_file_empty:
  "fst (download_asset_to_path ev i q s) = Inr () \<Longrightarrow>
   files (snd (download_asset_to_path ev i q s)) q = Some (Binary [])"
  by (simp add: download_asset_to_path_eq download_ok_def)

section \<open>Failures, order of the downloads and what a download writes\<close>

text \<open>
  C7. A download that fails does not end the run. When the metadata is there, the
  manifest can be opened, the download of asset x fails (its result is an exception) and
  the download of asset y completes, the run ends without an exception, the manifest has a
  record per id with \<^verbatim>\<open>success\<close> false at every occurrence of x and true at every occurrence
  of y, the file of x is what it was before the run (so it does not exist if it did not),
  the file of y exists, and a content request was sent for every id of the input, in
  order: no download was skipped.
\<close>

theorem C7_failure_is_per_asset:
  assumes "fst (get_asset_information ev ids s) = Inr infos"
    and "set ids \<subseteq> dom infos"
    and "open_error ev (path_join p ''assets.json'') = None"
    and "x \<in> set ids" and "infos x = Some dx"
    and "y \<in> set ids" and "infos y = Some dy"
    and "fst (download_asset_to_path ev x (path_join p (filename_for x dx)) t) = Inl e"
    and "fst (download_asset_to_path ev y (path_join p (filename_for y dy)) t) = Inr ()"
  shows "\<exists>recs s'. main ev p ids s = (None, s') \<and>
           files s' (path_join p ''assets.json'') = Some (Json recs) \<and>
           length recs = length ids \<and>
           (\<forall>i<length ids. (ids ! i = x \<longrightarrow> success (recs ! i) = Some False) \<and>
                            (ids ! i = y \<longrightarrow> success (recs ! i) = Some True)) \<and>
           files s' (path_join p (filename_for x dx)) = files s (path_join p (filename_for x dx)) \<and>
           files s' (path_join p (filename_for y dy)) = Some (Binary []) \<and>
           filter is_content_request (trace s') =
             filter is_content_request (trace s) @ map ContentRequest ids"
proof -
  let ?px = "path_join p (filename_for x dx)"
  let ?py = "path_join p (filename_for y dy)"
  let ?recs = "final_records ev p infos ids"
  let ?s' = "s\<lparr>files := (written ev (asset_path_of p infos) ids (files s))
                  (manifest_path p \<mapsto> Json ?recs),
              trace := trace s @ final_trace ev p infos ids\<rparr>"
  from assms(3) have W: "open_error ev (manifest_path p) = None" by (simp add: manifest_path_def)
  have run: "main ev p ids s = (None, ?s')" by (rule main_run [OF assms(1) assms(2) W])
  have px: "asset_path_of p infos x = ?px" by (simp add: asset_path_of_def assms(5))
  have py: "asset_path_of p infos y = ?py" by (simp add: asset_path_of_def assms(7))
  have bad: "\<not> download_ok ev x ?px"
    using assms(8) by (simp add: download_ok_iff [of ev x ?px t])
  have good: "download_ok ev y ?py"
    using assms(9) by (simp add: download_ok_iff [of ev y ?py t])
  have man: "files ?s' (path_join p ''assets.json'') = Some (Json ?recs)"
    by (simp only: files_manifest_after)
  have flags: "\<forall>i<length ids. (ids ! i = x \<longrightarrow> success (?recs ! i) = Some False) \<and>
                            (ids ! i = y \<longrightarrow> success (?recs ! i) = Some True)"
    using bad good by (simp add: final_records_nth px py)
  have none: "\<not> (\<exists>i\<in>set ids. download_ok ev i (asset_path_of p infos i) \<and>
                 asset_path_of p infos i = ?px)"
  proof
    assume "\<exists>i\<in>set ids. download_ok ev i (asset_path_of p infos i) \<and> asset_path_of p infos i = ?px"
    then obtain i where ok: "download_ok ev i (asset_path_of p infos i)"
      and eq: "asset_path_of p infos i = ?px"
      by blast
    from eq have "i = x" unfolding asset_path_of_def by (rule asset_path_inj)
    with ok px bad show False by simp
  qed
  have fx: "files ?s' ?px = files s ?px"
  proof -
    have "files ?s' ?px = written ev (asset_path_of p infos) ids (files s) ?px"
      by (simp add: asset_path_not_manifest)
    also have "\<dots> = files s ?px"
      unfolding written_lookup using none by (rule if_not_P)
    finally show ?thesis .
  qed
  have some: "\<exists>i\<in>set ids. download_ok ev i (asset_path_of p infos i) \<and> asset_path_of p infos i = ?py"
  proof (rule bexI [of _ y])
    show "download_ok ev y (asset_path_of p infos y) \<and> asset_path_of p infos y = ?py"
      using good by (simp add: py)
    show "y \<in> set ids" by (rule assms(6))
  qed
  have fy: "files ?s' ?py = Some (Binary [])"
  proof -
    have "files ?s' ?py = written ev (asset_path_of p infos) ids (files s) ?py"
      by (simp add: asset_path_not_manifest)
    also have "\<dots> = Some (Binary [])"
      unfolding written_lookup using some by (rule if_P)
    finally show ?thesis .
  qed
  have tr: "filter is_content_request (trace ?s') =
             filter is_content_request (trace s) @ map ContentRequest ids"
    by (simp add: content_requests_of_run)
  from run man flags fx fy tr final_records_length [of ev p infos ids] show ?thesis
    by blast
qed

theorem C7_failure_is_per_asset_witness:
  "\<exists>recs s'. main demo_env [''out''] [1, 2] empty_state = (None, s') \<and>
     files s' (path_join [''out''] ''assets.json'') = Some (Json recs) \<and>
     map success recs = [Some True, Some False] \<and>
     files s' [''out'', ''2.bin''] = None \<and>
     files s' [''out'', ''1.png''] = Some (Binary []) \<and>
     filter is_content_request (trace s') = [ContentRequest 1, ContentRequest 2]"
proof -
  have w: "open_error demo_env (path_join [''out''] ''assets.json'') = None"
    by (simp add: demo_env_def)
  have x: "2 \<in> set [1, 2 :: int]" and y: "1 \<in> set [1, 2 :: int]" by simp_all
  have bad: "fst (download_asset_to_path demo_env 2 (path_join [''out''] (filename_for 2 (demo_data 2)))
                empty_state) = Inl (ClientResponseError 404)"
    by (simp add: download_fst download_result_def demo_env_def)
  have good: "fst (download_asset_to_path demo_env 1 (path_join [''out''] (filename_for 1 (demo_data 1)))
                empty_state) = Inr ()"
    by (simp add: download_fst download_result_def demo_env_def)
  from C7_failure_is_per_asset
    [where ev = demo_env and ids = "[1, 2]" and s = empty_state and p = "[''out'']"
       and infos = "merged demo_env [1, 2]" and x = 2 and y = 1 and t = empty_state,
     OF demo_metadata demo_present w x demo_merged [OF x] y demo_merged [OF y] bad good]
  obtain recs s' where
    m: "main demo_env [''out''] [1, 2] empty_state = (None, s')"
    and f: "files s' (path_join [''out''] ''assets.json'') = Some (Json recs)"
    and l: "length recs = length [1, 2 :: int]"
    and g: "\<forall>i<length [1, 2 :: int].
              ([1, 2] ! i = (2 :: int) \<longrightarrow> success (recs ! i) = Some False) \<and>
              ([1, 2] ! i = (1 :: int) \<longrightarrow> success (recs ! i) = Some True)"
    and fx: "files s' (path_join [''out''] (filename_for 2 (demo_data 2))) =
             files empty_state (path_join [''out''] (filename_for 2 (demo_data 2)))"
    and fy: "files s' (path_join [''out''] (filename_for 1 (demo_data 1))) = Some (Binary [])"
    and tr: "filter is_content_request (trace s') =
             filter is_content_request (trace empty_state) @ map ContentRequest [1, 2]"
    by blast
  have n2: "path_join [''out''] (filename_for 2 (demo_data 2)) = [''out'', ''2.bin'']"
    by code_simp
  have n1: "path_join [''out''] (filename_for 1 (demo_data 1)) = [''out'', ''1.png'']"
    by code_simp
  from l have "length recs = 2" by simp
  then have r: "recs = [recs ! 0, recs ! 1]" by (rule two_records)
  from g have "success (recs ! 0) = Some True" "success (recs ! 1) = Some False"
    by simp_all
  with r have ms: "map success recs = [Some True, Some False]"
    by (metis (no_types) list.simps(8) list.simps(9))
  from fx have fx': "files s' [''out'', ''2.bin''] = None"
    by (simp add: n2 empty_state_def)
  from fy have fy': "files s' [''out'', ''1.png''] = Some (Binary [])"
    by (simp add: n1)
  from tr have tr': "filter is_content_request (trace s') = [ContentRequest 1, ContentRequest 2]"
    by (simp add: empty_state_def)
  show ?thesis
    by (rule exI [of _ recs], rule exI [of _ s'], intro conjI) (fact m f ms fx' fy' tr')+
qed

text \<open>
  C2, as the code has it. After the metadata has been fetched, one coroutine object per
  asset is made, in input order, and none of them runs yet. The loop of lines 105 to 109
  then awaits them one at a time: the operations of a run are the first message, one
  metadata query per chunk, then for each asset in input order all the operations of its
  download from the content request to the end, and last the summary and the writing of
  the manifest. Every download has ended before the next one sends its request.
\<close>

theorem C2_downloads_run_in_turn:
  assumes "main ev p ids s = (None, s')"
  shows "\<exists>infos rm cs recs sc fc.
           fst (get_asset_information ev ids s) = Inr infos \<and>
           build_records p infos ids [] [] = Inr (rm, cs) \<and>
           length cs = length ids \<and>
           (\<forall>i<length ids.
              cs ! i = Download_asset_to_path (ids ! i) (path_join p (filename (rm ! i)))) \<and>
           trace s' =
             trace s @ Echo ''Fetching asset information...'' #
             map MetadataRequest (id_chunks ids) @
             concat (map (run_alone ev) cs) @
             [Echo (summary_line (length ids) sc fc),
              OpenFile (path_join p ''assets.json'') ''w'',
              WriteFile (path_join p ''assets.json'') (Json recs),
              CloseFile (path_join p ''assets.json'')]"
proof -
  from manifest_after_run [OF assms] obtain infos where
    M: "fst (get_asset_information ev ids s) = Inr infos" and P: "set ids \<subseteq> dom infos"
    and s': "s' = s\<lparr>files := (written ev (asset_path_of p infos) ids (files s))
                  (manifest_path p \<mapsto> Json (final_records ev p infos ids)),
                 trace := trace s @ final_trace ev p infos ids\<rparr>"
    by blast
  let ?rm = "map (\<lambda>i. record_for i (the (infos i))) ids"
  let ?cs = "map (\<lambda>i. Download_asset_to_path i (path_join p (filename_for i (the (infos i))))) ids"
  have b: "build_records p infos ids [] [] = Inr (?rm, ?cs)"
    using build_records_ok [OF P, of p "[]" "[]"] by simp
  have l: "length ?cs = length ids" by simp
  have c: "\<forall>i<length ids.
      ?cs ! i = Download_asset_to_path (ids ! i) (path_join p (filename (?rm ! i)))"
    by (simp add: record_for_def)
  have e: "map (run_alone ev) ?cs = map (\<lambda>i. download_events ev i (asset_path_of p infos i)) ids"
    by (simp add: run_alone_download asset_path_of_def comp_def)
  have t: "trace s' =
             trace s @ Echo ''Fetching asset information...'' #
             map MetadataRequest (id_chunks ids) @
             concat (map (run_alone ev) ?cs) @
             [Echo (summary_line (length ids)
                (length (filter (\<lambda>i. download_ok ev i (asset_path_of p infos i)) ids))
                (length (filter (\<lambda>i. \<not> download_ok ev i (asset_path_of p infos i)) ids))),
              OpenFile (path_join p ''assets.json'') ''w'',
              WriteFile (path_join p ''assets.json'') (Json (final_records ev p infos ids)),
              CloseFile (path_join p ''assets.json'')]"
    unfolding e by (simp add: s' final_trace_def manifest_path_def)
  from M b l c t show ?thesis by blast
qed

theorem C2_downloads_run_in_turn_witness:
  "main demo_env [''out''] [1, 3] empty_state =
     (None, snd (main demo_env [''out''] [1, 3] empty_state)) \<and>
   (\<exists>cs post. length cs = 2 \<and>
      trace (snd (main demo_env [''out''] [1, 3] empty_state)) =
        Echo ''Fetching asset information...'' # MetadataRequest [1, 3] #
        (run_alone demo_env (cs ! 0) @ run_alone demo_env (cs ! 1)) @ post)"
proof -
  from C2_downloads_run_in_turn [OF run_witness [of "[''out'']" "[1, 3]" empty_state]]
  obtain cs post where l: "length cs = length [1, 3 :: int]"
    and t: "trace (snd (main demo_env [''out''] [1, 3] empty_state)) =
             trace empty_state @ Echo ''Fetching asset information...'' #
             map MetadataRequest (id_chunks [1, 3]) @
             concat (map (run_alone demo_env) cs) @ post"
    by blast
  from l have l2: "length cs = 2" by simp
  then have c: "cs = [cs ! 0, cs ! 1]" by (rule two_records)
  have "concat (map (run_alone demo_env) [cs ! 0, cs ! 1]) =
      run_alone demo_env (cs ! 0) @ run_alone demo_env (cs ! 1)"
    by simp
  with c have cc: "concat (map (run_alone demo_env) cs) =
      run_alone demo_env (cs ! 0) @ run_alone demo_env (cs ! 1)"
    by simp
  from t have "trace (snd (main demo_env [''out''] [1, 3] empty_state)) =
        Echo ''Fetching asset information...'' # MetadataRequest [1, 3] #
        (run_alone demo_env (cs ! 0) @ run_alone demo_env (cs ! 1)) @ post"
    unfolding cc by (simp add: empty_state_def chunks_of_two)
  with l2 run_witness [of "[''out'']" "[1, 3]" empty_state] show ?thesis by blast
qed

text \<open>
  C2, as the claim states it, fails: with assets 1 and 3, whose downloads both complete,
  the file of asset 1 is closed before the content request of asset 3 is sent.
\<close>

theorem C2_not_in_flight_together:
  "\<not> all_in_flight_together (trace (snd (main demo_env [''out''] [1, 3] empty_state)))"
  by code_simp

text \<open>
  C1. The claim says that the file of a completed download holds the fetched bytes. Line 59
  calls \<^verbatim>\<open>file.write(content)\<close> without awaiting it, so the write never runs: for asset 1,
  whose content is the three bytes 7, 8, 9, the download completes and the file is
  empty, also at the end of a whole run.
\<close>

theorem C1_fetched_bytes_not_written:
  "delivery demo_env 1 = Inr [7, 8, 9] \<and>
   fst (download_asset_to_path demo_env 1 [''out'', ''1.png''] empty_state) = Inr () \<and>
   files (snd (download_asset_to_path demo_env 1 [''out'', ''1.png''] empty_state)) [''out'', ''1.png'']
     = Some (Binary []) \<and>
   fst (main demo_env [''out''] [1] empty_state) = None \<and>
   files (snd (main demo_env [''out''] [1] empty_state)) [''out'', ''1.png''] = Some (Binary [])"
proof -
  have "delivery demo_env 1 = Inr [7, 8, 9]" by (simp add: demo_env_def)
  moreover have "fst (download_asset_to_path demo_env 1 [''out'', ''1.png''] empty_state) = Inr ()"
    by code_simp
  moreover have "files (snd (download_asset_to_path demo_env 1 [''out'', ''1.png''] empty_state))
      [''out'', ''1.png''] = Some (Binary [])"
    by code_simp
  moreover have "fst (main demo_env [''out''] [1] empty_state) = None" by code_simp
  moreover have "files (snd (main demo_env [''out''] [1] empty_state)) [''out'', ''1.png'']
      = Some (Binary [])"
    by code_simp
  ultimately show ?thesis by simp
qed

end
